theory Spec2Isabelle
  imports Complex_Main
begin

section \<open>Ant colony search for a closed tour (ACO.py)\<close>

subsection \<open>Numbers of the cost and pheromone matrices\<close>

text \<open>
  The matrices are numpy arrays of float64 (the sentinel \<open>np.NINF\<close> forces that type) and
  every cost of an ant is a numpy float64 scalar after the first move.  A value is one of
  the IEEE special values or a finite number.  Finite numbers are exact reals here:
  rounding, overflow and the sign of zero are not modelled; the special values, on which
  the control flow of the program depends, are.
\<close>

datatype npfloat = NaN | NInf | Fin real | PInf

text \<open>Python exceptions the program can raise (it defines none of its own).\<close>

datatype py_error = IndexError | ValueError

type_synonym matrix = "npfloat list list"

fun fadd :: "npfloat \<Rightarrow> npfloat \<Rightarrow> npfloat" where
  "fadd NaN _ = NaN"
| "fadd _ NaN = NaN"
| "fadd (Fin a) (Fin b) = Fin (a + b)"
| "fadd NInf PInf = NaN"
| "fadd PInf NInf = NaN"
| "fadd NInf _ = NInf"
| "fadd _ NInf = NInf"
| "fadd PInf _ = PInf"
| "fadd _ PInf = PInf"

fun fmul :: "npfloat \<Rightarrow> npfloat \<Rightarrow> npfloat" where
  "fmul NaN _ = NaN"
| "fmul _ NaN = NaN"
| "fmul (Fin a) (Fin b) = Fin (a * b)"
| "fmul PInf (Fin b) = (if 0 < b then PInf else if b < 0 then NInf else NaN)"
| "fmul NInf (Fin b) = (if 0 < b then NInf else if b < 0 then PInf else NaN)"
| "fmul (Fin a) PInf = (if 0 < a then PInf else if a < 0 then NInf else NaN)"
| "fmul (Fin a) NInf = (if 0 < a then NInf else if a < 0 then PInf else NaN)"
| "fmul PInf PInf = PInf"
| "fmul NInf NInf = PInf"
| "fmul PInf NInf = NInf"
| "fmul NInf PInf = NInf"

text \<open>
  numpy's true division: a zero divisor raises nothing (numpy only warns), the quotient
  is an infinity or NaN.
\<close>

fun fdiv :: "npfloat \<Rightarrow> npfloat \<Rightarrow> npfloat" where
  "fdiv NaN _ = NaN"
| "fdiv _ NaN = NaN"
| "fdiv (Fin a) (Fin b) =
     (if b \<noteq> 0 then Fin (a / b)
      else if 0 < a then PInf else if a < 0 then NInf else NaN)"
| "fdiv (Fin a) PInf = Fin 0"
| "fdiv (Fin a) NInf = Fin 0"
| "fdiv PInf (Fin b) = (if 0 \<le> b then PInf else NInf)"
| "fdiv NInf (Fin b) = (if 0 \<le> b then NInf else PInf)"
| "fdiv PInf PInf = NaN"
| "fdiv PInf NInf = NaN"
| "fdiv NInf PInf = NaN"
| "fdiv NInf NInf = NaN"

definition is_int :: "real \<Rightarrow> bool" where
  "is_int y = (y = of_int \<lfloor>y\<rfloor>)"

definition odd_int :: "real \<Rightarrow> bool" where
  "odd_int y = (is_int y \<and> odd \<lfloor>y\<rfloor>)"

text \<open>\<open>x ** y\<close> for a float64 \<open>x\<close> and a finite exponent \<open>y\<close> (the C library's pow).\<close>

definition fpow :: "npfloat \<Rightarrow> real \<Rightarrow> npfloat" where
  "fpow x y =
     (if y = 0 then Fin 1
      else case x of
        NaN \<Rightarrow> NaN
      | PInf \<Rightarrow> (if 0 < y then PInf else Fin 0)
      | NInf \<Rightarrow> (if 0 < y then (if odd_int y then NInf else PInf) else Fin 0)
      | Fin r \<Rightarrow>
          (if 0 < r then Fin (r powr y)
           else if r = 0 then (if 0 < y then Fin 0 else PInf)
           else if is_int y then Fin ((if odd_int y then - 1 else 1) * ((- r) powr y))
           else NaN))"

text \<open>Comparisons: every comparison with NaN is false, except \<open>!=\<close>.\<close>

fun feq :: "npfloat \<Rightarrow> npfloat \<Rightarrow> bool" where
  "feq NaN _ = False"
| "feq _ NaN = False"
| "feq x y = (x = y)"

fun flt :: "npfloat \<Rightarrow> npfloat \<Rightarrow> bool" where
  "flt NaN _ = False"
| "flt _ NaN = False"
| "flt (Fin a) (Fin b) = (a < b)"
| "flt NInf NInf = False"
| "flt NInf _ = True"
| "flt _ NInf = False"
| "flt PInf _ = False"
| "flt _ PInf = True"

definition fle :: "npfloat \<Rightarrow> npfloat \<Rightarrow> bool" where
  "fle x y = (flt x y \<or> feq x y)"

subsection \<open>Matrices\<close>

definition shape0 :: "matrix \<Rightarrow> nat" where
  "shape0 m = length m"

definition shape1 :: "matrix \<Rightarrow> nat" where
  "shape1 m = (case m of [] \<Rightarrow> 0 | r # _ \<Rightarrow> length r)"

text \<open>\<open>m[i, j]\<close> and \<open>m[i][j]\<close> for indices that are never negative; out of range raises.\<close>

definition getitem :: "matrix \<Rightarrow> nat \<Rightarrow> nat \<Rightarrow> py_error + npfloat" where
  "getitem m i j =
     (if i < length m \<and> j < length (m ! i) then Inr (m ! i ! j) else Inl IndexError)"

definition setitem :: "matrix \<Rightarrow> nat \<Rightarrow> nat \<Rightarrow> npfloat \<Rightarrow> matrix" where
  "setitem m i j v = m[i := (m ! i)[j := v]]"

subsection \<open>The ant\<close>

text \<open>
  \<open>_Ant(city)\<close> starts with \<open>path = [city]\<close> and \<open>cost = 0\<close>; \<open>go\<close> only appends, so a
  path is never empty and \<open>path[-1]\<close>, \<open>path[0]\<close> never raise.  The cost is the Python
  integer 0 until the first move and a float64 from then on; the only division by a cost,
  in \<open>_update_pheromones\<close>, is made for ants that have moved.
\<close>

record ant =
  path :: "nat list"
  cost :: npfloat

definition new_ant :: "nat \<Rightarrow> ant" where
  "new_ant c = \<lparr>path = [c], cost = Fin 0\<rparr>"

definition ant_lt :: "ant \<Rightarrow> ant \<Rightarrow> bool" where
  "ant_lt a b = flt (cost a) (cost b)"

definition city :: "ant \<Rightarrow> nat" where
  "city a = last (path a)"

definition start :: "ant \<Rightarrow> nat" where
  "start a = hd (path a)"

definition go :: "ant \<Rightarrow> nat \<Rightarrow> matrix \<Rightarrow> py_error + ant" where
  "go a next_city graph =
     (case getitem graph (city a) next_city of
        Inl e \<Rightarrow> Inl e
      | Inr w \<Rightarrow> Inr \<lparr>path = path a @ [next_city], cost = fadd (cost a) w\<rparr>)"

definition init_ants :: "nat \<Rightarrow> int \<Rightarrow> ant list" where
  "init_ants cities_count n_ants =
     concat (map (\<lambda>c. replicate (nat n_ants) (new_ant c)) [0..<cities_count])"

definition init_pheromones :: "matrix \<Rightarrow> matrix" where
  "init_pheromones graph = map (map (\<lambda>x. if flt NInf x then Fin 0 else x)) graph"

subsection \<open>Candidate paths\<close>

text \<open>The loop \<open>for next_city in range(cities_count)\<close>, over the cities still to try.\<close>

fun standard_step_loop :: "nat list \<Rightarrow> matrix \<Rightarrow> nat list \<Rightarrow> py_error + nat list list" where
  "standard_step_loop current_path graph [] = Inr []"
| "standard_step_loop current_path graph (next_city # rest) =
     (case getitem graph (last current_path) next_city of
        Inl e \<Rightarrow> Inl e
      | Inr weight \<Rightarrow>
          (case standard_step_loop current_path graph rest of
             Inl e \<Rightarrow> Inl e
           | Inr next_paths \<Rightarrow>
               if next_city \<in> set current_path \<or> feq weight NInf then Inr next_paths
               else Inr ((current_path @ [next_city]) # next_paths)))"

definition get_next_paths_standard_step :: "nat list \<Rightarrow> matrix \<Rightarrow> py_error + nat list list" where
  "get_next_paths_standard_step current_path graph =
     standard_step_loop current_path graph [0..<shape1 graph]"

definition get_next_paths_final_step :: "nat list \<Rightarrow> matrix \<Rightarrow> py_error + nat list list" where
  "get_next_paths_final_step current_path graph =
     (case getitem graph (last current_path) (hd current_path) of
        Inl e \<Rightarrow> Inl e
      | Inr c \<Rightarrow> if feq c NInf then Inr [] else Inr [current_path @ [hd current_path]])"

definition get_next_paths :: "nat list \<Rightarrow> matrix \<Rightarrow> py_error + nat list list" where
  "get_next_paths current_path graph =
     (if length current_path = shape1 graph
      then get_next_paths_final_step current_path graph
      else get_next_paths_standard_step current_path graph)"

subsection \<open>Selection weights\<close>

text \<open>\<open>a, b = p[-2:]\<close>: unpacking fewer than two values raises ValueError.\<close>

definition last2 :: "nat list \<Rightarrow> py_error + nat \<times> nat" where
  "last2 p =
     (if length p < 2 then Inl ValueError
      else Inr (p ! (length p - 2), p ! (length p - 1)))"

definition get_probability_numerator ::
    "nat list \<Rightarrow> matrix \<Rightarrow> matrix \<Rightarrow> real \<Rightarrow> real \<Rightarrow> py_error + npfloat" where
  "get_probability_numerator p graph phs alpha beta =
     (if length p = 2 then Inr (Fin 1)
      else case last2 p of
        Inl e \<Rightarrow> Inl e
      | Inr (current_city, next_city) \<Rightarrow>
          (case getitem graph current_city next_city of
             Inl e \<Rightarrow> Inl e
           | Inr w \<Rightarrow>
               (case getitem phs current_city next_city of
                  Inl e \<Rightarrow> Inl e
                | Inr ph \<Rightarrow> Inr (fmul (fpow ph alpha) (fpow (fdiv (Fin 1) w) beta)))))"

text \<open>A list comprehension over a function that may raise stops at the first error.\<close>

fun map_raise :: "('a \<Rightarrow> py_error + 'b) \<Rightarrow> 'a list \<Rightarrow> py_error + 'b list" where
  "map_raise f [] = Inr []"
| "map_raise f (x # xs) =
     (case f x of
        Inl e \<Rightarrow> Inl e
      | Inr y \<Rightarrow> (case map_raise f xs of Inl e \<Rightarrow> Inl e | Inr ys \<Rightarrow> Inr (y # ys)))"

definition get_next_paths_and_probabilities ::
    "nat list \<Rightarrow> matrix \<Rightarrow> matrix \<Rightarrow> real \<Rightarrow> real \<Rightarrow> py_error + nat list list \<times> npfloat list" where
  "get_next_paths_and_probabilities p graph phs alpha beta =
     (case get_next_paths p graph of
        Inl e \<Rightarrow> Inl e
      | Inr next_paths \<Rightarrow>
          (case map_raise (\<lambda>np. get_probability_numerator np graph phs alpha beta) next_paths of
             Inl e \<Rightarrow> Inl e
           | Inr numerators \<Rightarrow>
               (let denominator =
                      (if numerators \<noteq> [] then foldl fadd (Fin 0) numerators else Fin 0);
                    probabilities =
                      (if \<not> feq denominator (Fin 0)
                       then map (\<lambda>num. fdiv num denominator) numerators else [])
                in Inr (next_paths, probabilities))))"

subsection \<open>The random choice\<close>

text \<open>
  \<open>random.choices(population, weights=w, k=1)[0]\<close> is library code.  It raises ValueError
  when the number of weights differs from the size of the population (IndexError on an
  empty population with no weights) and otherwise returns one element of the population.
  Which one is decided by the generator: the draw \<open>r\<close> stands for its decision, and every
  element of the population is selected by some draw.  The library never selects a
  candidate of weight zero, and recent versions raise ValueError for a total weight that
  is not positive or not finite; neither is modelled, so every successful run of the
  program on exact numbers is a run of the model.
\<close>

definition choices :: "'a list \<Rightarrow> npfloat list \<Rightarrow> nat \<Rightarrow> py_error + 'a" where
  "choices population weights r =
     (if length weights \<noteq> length population then Inl ValueError
      else if population = [] then Inl IndexError
      else Inr (population ! (r mod length population)))"

subsection \<open>One turn\<close>

text \<open>
  The generator is the sequence \<open>rnd\<close> of draws and the number \<open>k\<close> of draws used so far.
  The result of \<open>update_ant\<close> is the flag \<open>live\<close>, the ant after the call and the new count.
\<close>

definition update_ant ::
    "ant \<Rightarrow> matrix \<Rightarrow> matrix \<Rightarrow> real \<Rightarrow> real \<Rightarrow> (nat \<Rightarrow> nat) \<Rightarrow> nat \<Rightarrow> py_error + bool \<times> ant \<times> nat" where
  "update_ant a graph phs alpha beta rnd k =
     (case get_next_paths_and_probabilities (path a) graph phs alpha beta of
        Inl e \<Rightarrow> Inl e
      | Inr (next_paths, probabilities) \<Rightarrow>
          if length next_paths = 0 then Inr (False, a, k)
          else (case choices next_paths probabilities (rnd k) of
                  Inl e \<Rightarrow> Inl e
                | Inr selected_path \<Rightarrow>
                    (case go a (last selected_path) graph of
                       Inl e \<Rightarrow> Inl e
                     | Inr a' \<Rightarrow> Inr (True, a', Suc k))))"

text \<open>
  \<open>_update_ants\<close> updates the ants in list order and then removes the dead ones; the ants
  are distinct objects compared by identity, so the list that remains is the list of the
  live ants in their order.
\<close>

fun update_ants ::
    "ant list \<Rightarrow> matrix \<Rightarrow> matrix \<Rightarrow> real \<Rightarrow> real \<Rightarrow> (nat \<Rightarrow> nat) \<Rightarrow> nat \<Rightarrow> py_error + ant list \<times> nat" where
  "update_ants [] phs graph alpha beta rnd k = Inr ([], k)"
| "update_ants (a # ants) phs graph alpha beta rnd k =
     (case update_ant a graph phs alpha beta rnd k of
        Inl e \<Rightarrow> Inl e
      | Inr (live, a', k') \<Rightarrow>
          (case update_ants ants phs graph alpha beta rnd k' of
             Inl e \<Rightarrow> Inl e
           | Inr (rest, k'') \<Rightarrow> Inr (if live then a' # rest else rest, k'')))"

definition evaporate :: "matrix \<Rightarrow> real \<Rightarrow> matrix" where
  "evaporate phs rho = map (map (\<lambda>x. fmul x (Fin rho))) phs"

fun deposit_loop :: "ant list \<Rightarrow> matrix \<Rightarrow> real \<Rightarrow> py_error + matrix" where
  "deposit_loop [] phs q = Inr phs"
| "deposit_loop (a # ants) phs q =
     (case last2 (path a) of
        Inl e \<Rightarrow> Inl e
      | Inr (prev_city, next_city) \<Rightarrow>
          (let delta_phs = fdiv (Fin q) (cost a) in
           case getitem phs prev_city next_city of
             Inl e \<Rightarrow> Inl e
           | Inr old \<Rightarrow>
               deposit_loop ants (setitem phs prev_city next_city (fadd old delta_phs)) q))"

definition update_pheromones :: "ant list \<Rightarrow> matrix \<Rightarrow> real \<Rightarrow> real \<Rightarrow> py_error + matrix" where
  "update_pheromones ants phs q rho = deposit_loop ants (evaporate phs rho) q"

definition turn ::
    "ant list \<Rightarrow> matrix \<Rightarrow> matrix \<Rightarrow> real \<Rightarrow> real \<Rightarrow> real \<Rightarrow> real \<Rightarrow> (nat \<Rightarrow> nat) \<Rightarrow> nat
      \<Rightarrow> py_error + ant list \<times> matrix \<times> nat" where
  "turn ants phs graph q rho alpha beta rnd k =
     (case update_ants ants phs graph alpha beta rnd k of
        Inl e \<Rightarrow> Inl e
      | Inr (ants', k') \<Rightarrow>
          (case update_pheromones ants' phs q rho of
             Inl e \<Rightarrow> Inl e
           | Inr phs' \<Rightarrow> Inr (ants', phs', k')))"

text \<open>The loop \<open>for i in range(cities_count): _turn(...)\<close>, with \<open>n\<close> turns still to run.\<close>

fun turns ::
    "nat \<Rightarrow> ant list \<Rightarrow> matrix \<Rightarrow> matrix \<Rightarrow> real \<Rightarrow> real \<Rightarrow> real \<Rightarrow> real \<Rightarrow> (nat \<Rightarrow> nat) \<Rightarrow> nat
      \<Rightarrow> py_error + ant list \<times> matrix \<times> nat" where
  "turns 0 ants phs graph q rho alpha beta rnd k = Inr (ants, phs, k)"
| "turns (Suc n) ants phs graph q rho alpha beta rnd k =
     (case turn ants phs graph q rho alpha beta rnd k of
        Inl e \<Rightarrow> Inl e
      | Inr (ants', phs', k') \<Rightarrow> turns n ants' phs' graph q rho alpha beta rnd k')"

subsection \<open>The best ant and the search\<close>

text \<open>
  \<open>sorted\<close> is a stable sort that compares with \<open>__lt__\<close> only.  Costs without NaN are
  totally ordered, and then every stable sort returns the same list; this one inserts
  each ant in front of the first ant that is not smaller.  On a list of two ants it
  makes the one comparison that \<open>sorted\<close> makes, the second ant with the first, and
  keeps the order unless the second is smaller.
\<close>

fun insort_ant :: "ant \<Rightarrow> ant list \<Rightarrow> ant list" where
  "insort_ant a [] = [a]"
| "insort_ant a (b # bs) = (if ant_lt b a then b # insort_ant a bs else a # b # bs)"

definition sorted_ants :: "ant list \<Rightarrow> ant list" where
  "sorted_ants xs = foldr insort_ant xs []"

definition find_best_ant :: "ant list \<Rightarrow> nat \<Rightarrow> py_error + ant" where
  "find_best_ant ants s =
     (let start_ants = filter (\<lambda>a. start a = s) ants;
          best_ants = sorted_ants start_ants
      in case best_ants of [] \<Rightarrow> Inl IndexError | b # _ \<Rightarrow> Inr b)"

text \<open>The third component of the result is the constant \<open>None\<close>; it is left out.\<close>

definition ant_search ::
    "matrix \<Rightarrow> nat \<Rightarrow> int \<Rightarrow> real \<Rightarrow> real \<Rightarrow> real \<Rightarrow> real \<Rightarrow> (nat \<Rightarrow> nat) \<Rightarrow> py_error + nat list \<times> npfloat" where
  "ant_search graph s n_ants q rho alpha beta rnd =
     (let cities_count = shape0 graph;
          ants = init_ants cities_count n_ants;
          phs = init_pheromones graph
      in case turns cities_count ants phs graph q rho alpha beta rnd 0 of
           Inl e \<Rightarrow> Inl e
         | Inr (ants', phs', k) \<Rightarrow>
             (case find_best_ant ants' s of
                Inl e \<Rightarrow> Inl e
              | Inr best_ant \<Rightarrow> Inr (path best_ant, cost best_ant)))"

section \<open>Notions used in the properties\<close>

subsection \<open>One move of an ant\<close>

text \<open>
  \<open>advanced g a a'\<close>: the ant \<open>a'\<close> is the ant \<open>a\<close> after one successful move, along an
  edge whose cost is not the sentinel; the move closes the tour when the path already has
  as many cities as the matrix has columns, and goes to a new city otherwise.
\<close>

definition advanced :: "matrix \<Rightarrow> ant \<Rightarrow> ant \<Rightarrow> bool" where
  "advanced g a a' =
     (\<exists>c w. path a' = path a @ [c] \<and> cost a' = fadd (cost a) w \<and>
            getitem g (last (path a)) c = Inr w \<and> \<not> feq w NInf \<and>
            (if length (path a) = shape1 g then c = hd (path a)
             else c \<notin> set (path a) \<and> c < shape1 g))"

text \<open>The state of an ant of an \<open>N\<close>-city search after \<open>t\<close> turns.\<close>

definition tour_inv :: "nat \<Rightarrow> nat \<Rightarrow> ant \<Rightarrow> bool" where
  "tour_inv N t a =
     (length (path a) = Suc t \<and> set (path a) \<subseteq> {0..<N} \<and> distinct (take N (path a)) \<and>
      (t = N \<longrightarrow> last (path a) = hd (path a)))"

text \<open>The most recent edge of an ant exists and is not a sentinel edge.\<close>

definition just_moved :: "matrix \<Rightarrow> ant \<Rightarrow> bool" where
  "just_moved g a = (\<exists>i j w. last2 (path a) = Inr (i, j) \<and> getitem g i j = Inr w \<and> \<not> feq w NInf)"


subsection \<open>The cost of a path\<close>





definition nonneg_matrix :: "matrix \<Rightarrow> bool" where
  "nonneg_matrix g = (\<forall>r\<in>set g. \<forall>x\<in>set r. x = NInf \<or> (\<exists>v\<ge>0. x = Fin v))"


definition nonneg_cost :: "ant \<Rightarrow> bool" where
  "nonneg_cost a = (\<exists>v\<ge>0. cost a = Fin v)"

subsection \<open>The pheromone matrix\<close>

definition same_shape :: "matrix \<Rightarrow> matrix \<Rightarrow> bool" where
  "same_shape m g = (length m = length g \<and> (\<forall>i<length g. length (m ! i) = length (g ! i)))"

text \<open>The amounts deposited on the edge \<open>(i, j)\<close> by a list of ants, in the order of the list.\<close>

definition deposits :: "real \<Rightarrow> ant list \<Rightarrow> nat \<Rightarrow> nat \<Rightarrow> npfloat list" where
  "deposits q ants i j =
     map (\<lambda>a. fdiv (Fin q) (cost a)) (filter (\<lambda>a. last2 (path a) = Inr (i, j)) ants)"


definition nonneg_or_pinf :: "npfloat \<Rightarrow> bool" where
  "nonneg_or_pinf x = (case x of Fin r \<Rightarrow> 0 \<le> r | PInf \<Rightarrow> True | _ \<Rightarrow> False)"

definition trail_inv :: "matrix \<Rightarrow> matrix \<Rightarrow> bool" where
  "trail_inv g phs =
     (same_shape phs g \<and>
      (\<forall>i<length g. \<forall>j<length (g ! i).
         if g ! i ! j = NInf then phs ! i ! j = NInf else nonneg_or_pinf (phs ! i ! j)))"

subsection \<open>Example inputs\<close>

text \<open>Two and three cities with all costs 1.\<close>

definition g2 :: matrix where
  "g2 = [[NInf, Fin 1], [Fin 1, NInf]]"

definition g3 :: matrix where
  "g3 = [[NInf, Fin 1, Fin 1], [Fin 1, NInf, Fin 1], [Fin 1, Fin 1, NInf]]"

text \<open>Three cities, the two directions of the round trip cost 6 and 15.\<close>

definition g3a :: matrix where
  "g3a = [[NInf, Fin 1, Fin 5], [Fin 4, NInf, Fin 2], [Fin 3, Fin 6, NInf]]"

text \<open>Three cities where city 2 can only be left towards city 0.\<close>

definition g3d :: matrix where
  "g3d = [[NInf, Fin 1, Fin 1], [NInf, NInf, Fin 1], [Fin 1, NInf, NInf]]"

text \<open>A matrix of two rows and three columns.\<close>

definition g23 :: matrix where
  "g23 = [[NInf, Fin 1, Fin 1], [Fin 1, NInf, Fin 1]]"

text \<open>Three cities with all costs 1 but the cost NaN of the edge from city 0 to city 2.\<close>

definition gnan :: matrix where
  "gnan = [[NInf, Fin 1, NaN], [Fin 1, NInf, Fin 1], [Fin 1, Fin 1, NInf]]"



text \<open>Two cities with the single edge from city 1 to city 0.\<close>

definition g2d :: matrix where
  "g2d = [[NInf, NInf], [Fin 1, NInf]]"

text \<open>Two cities joined by edges of cost 0.\<close>

definition gz :: matrix where
  "gz = [[NInf, Fin 0], [Fin 0, NInf]]"

text \<open>The generator that returns the listed draws and 0 afterwards.\<close>

definition draws_from :: "nat list \<Rightarrow> nat \<Rightarrow> nat" where
  "draws_from ds k = (if k < length ds then ds ! k else 0)"

text \<open>The population and the pheromones at the end of the example run on \<open>g3a\<close>.\<close>

definition ants3a :: "ant list" where
  "ants3a =
     [\<lparr>path = [0, 2, 1, 0], cost = Fin 15\<rparr>, \<lparr>path = [0, 1, 2, 0], cost = Fin 6\<rparr>,
      \<lparr>path = [1, 2, 0, 1], cost = Fin 6\<rparr>, \<lparr>path = [1, 0, 2, 1], cost = Fin 15\<rparr>,
      \<lparr>path = [2, 1, 0, 2], cost = Fin 15\<rparr>, \<lparr>path = [2, 0, 1, 2], cost = Fin 6\<rparr>]"

definition phs3a :: matrix where
  "phs3a =
     [[NInf, Fin (13 / 24), Fin (31 / 180)],
      [Fin (43 / 240), NInf, Fin (11 / 24)],
      [Fin (7 / 20), Fin (203 / 1320), NInf]]"

text \<open>The population and the pheromones at the end of the example run on \<open>g3d\<close>.\<close>

definition ants3d :: "ant list" where
  "ants3d = [\<lparr>path = [1, 2, 0, 1], cost = Fin 3\<rparr>, \<lparr>path = [2, 0, 1, 2], cost = Fin 3\<rparr>]"

definition phs3d :: matrix where
  "phs3d =
     [[NInf, Fin (497 / 6), Fin (9801 / 100)],
      [NInf, NInf, Fin (39403 / 300)],
      [Fin (14751 / 100), NInf, NInf]]"

section \<open>Properties\<close>

subsection \<open>Evaluation of the examples\<close>

lemma upt2: "[0..<2] = [0, Suc 0]"
  by (simp add: upt_rec)

lemma upt3: "[0..<3] = [0, Suc 0, 2]"
  by (simp add: upt_rec)

lemmas ev = g2_def g3_def g3a_def g3d_def g2d_def gz_def g23_def gnan_def draws_from_def
  init_ants_def init_pheromones_def new_ant_def turn_def update_ant_def
  get_next_paths_and_probabilities_def get_next_paths_def get_next_paths_standard_step_def
  get_next_paths_final_step_def get_probability_numerator_def last2_def getitem_def setitem_def
  choices_def go_def city_def start_def update_pheromones_def evaporate_def shape0_def shape1_def
  fpow_def find_best_ant_def sorted_ants_def ant_lt_def ant_search_def upt2 upt3 Let_def
  numeral_2_eq_2 numeral_3_eq_3

lemma run_g3a:
  "turns (shape0 g3a) (init_ants (shape0 g3a) 2) (init_pheromones g3a) g3a 1 (1 / 2) 1 1
      (draws_from [1, 0, 1, 0, 1, 0]) 0 = Inr (ants3a, phs3a, 18)"
  by (simp add: ev ants3a_def phs3a_def)

lemma run_g3d:
  "turns (shape0 g3d) (init_ants (shape0 g3d) 1) (init_pheromones g3d) g3d 100 (99 / 100) 0 1
      (draws_from [1]) 0 = Inr (ants3d, phs3d, 7)"
  by (simp add: ev ants3d_def phs3d_def)

subsection \<open>The selection numerator\<close>

lemma last2_snoc: "p \<noteq> [] \<Longrightarrow> last2 (p @ [j]) = Inr (last p, j)"
  by (simp add: last2_def nth_append last_conv_nth)

text \<open>
  C7.  The candidate path handed to \<open>get_probability_numerator\<close> is the ant's path \<open>p\<close>
  extended by the candidate city \<open>j\<close>.  When \<open>p\<close> holds exactly one city the numerator
  is 1; otherwise it is \<open>phs[i, j] ** alpha * (1 / graph[i, j]) ** beta\<close>, where \<open>i\<close> is
  the ant's current city, the last city of \<open>p\<close>.
\<close>

theorem numerator_formula:
  assumes "p \<noteq> []"
    and "i = last p"
    and "i < length graph" and "j < length (graph ! i)"
    and "i < length phs" and "j < length (phs ! i)"
  shows "get_probability_numerator (p @ [j]) graph phs alpha beta =
           Inr (if length p = 1 then Fin 1
                else fmul (fpow (phs ! i ! j) alpha) (fpow (fdiv (Fin 1) (graph ! i ! j)) beta))"
  using assms by (simp add: get_probability_numerator_def last2_snoc getitem_def)

theorem numerator_formula_witness:
  "get_probability_numerator ([0] @ [1]) g2 [[NInf, Fin 3], [Fin 4, NInf]] 1 5 = Inr (Fin 1) \<and>
   get_probability_numerator ([0, 1] @ [0]) [[NInf, Fin 2], [Fin 2, NInf]]
       [[NInf, Fin 3], [Fin 4, NInf]] 1 2 = Inr (Fin 1)"
proof -
  have a: "get_probability_numerator ([0] @ [1]) g2 [[NInf, Fin 3], [Fin 4, NInf]] 1 5 = Inr (Fin 1)"
    using numerator_formula [of "[0]" 0 g2 1 "[[NInf, Fin 3], [Fin 4, NInf]]" 1 5]
    by (simp add: g2_def)
  have b: "get_probability_numerator ([0, 1] @ [0]) [[NInf, Fin 2], [Fin 2, NInf]]
       [[NInf, Fin 3], [Fin 4, NInf]] 1 2 = Inr (Fin 1)"
    using numerator_formula [of "[0, 1]" 1 "[[NInf, Fin 2], [Fin 2, NInf]]" 0
        "[[NInf, Fin 3], [Fin 4, NInf]]" 1 2]
    by (simp add: fpow_def powr_half_sqrt power2_eq_square)
  from a b show ?thesis by simp
qed

subsection \<open>A zero sum of numerators\<close>

text \<open>
  C2 fails on the program.  On \<open>g3\<close> with one ant per city, every ant takes its first
  candidate in the first turn: the ants move along 0-1, 1-0 and 2-0.  In the second turn
  the ant on the path 0, 1 has the single candidate 0, 1, 2, whose edge 1-2 carries no
  pheromone: the numerators sum to 0 and the list of probabilities is empty.  The ant is
  not removed: \<open>update_ant\<close> tests only the candidates, and the choice among one candidate
  with no weights raises ValueError, which ends the search.
\<close>

theorem zero_sum_raises:
  "turn (init_ants (shape0 g3) 1) (init_pheromones g3) g3 100 (99 / 100) 1 5 (draws_from []) 0 =
     Inr ([\<lparr>path = [0, 1], cost = Fin 1\<rparr>, \<lparr>path = [1, 0], cost = Fin 1\<rparr>,
           \<lparr>path = [2, 0], cost = Fin 1\<rparr>],
          [[NInf, Fin 100, Fin 0], [Fin 100, NInf, Fin 0], [Fin 100, Fin 0, NInf]], 3) \<and>
   get_next_paths_and_probabilities [0, 1] g3
       [[NInf, Fin 100, Fin 0], [Fin 100, NInf, Fin 0], [Fin 100, Fin 0, NInf]] 1 5 =
     Inr ([[0, 1, 2]], []) \<and>
   update_ant \<lparr>path = [0, 1], cost = Fin 1\<rparr> g3
       [[NInf, Fin 100, Fin 0], [Fin 100, NInf, Fin 0], [Fin 100, Fin 0, NInf]] 1 5
       (draws_from []) 3 = Inl ValueError \<and>
   ant_search g3 0 1 100 (99 / 100) 1 5 (draws_from []) = Inl ValueError"
  by (simp add: ev)

subsection \<open>Moves of the ants\<close>

lemma getitem_Inr: "getitem m i j = Inr w \<longleftrightarrow> i < length m \<and> j < length (m ! i) \<and> w = m ! i ! j"
  by (auto simp: getitem_def)

lemma standard_step_loop_sound:
  "standard_step_loop p g cs = Inr nps \<Longrightarrow> np \<in> set nps \<Longrightarrow>
     \<exists>c\<in>set cs. np = p @ [c] \<and> c \<notin> set p \<and> (\<exists>w. getitem g (last p) c = Inr w \<and> \<not> feq w NInf)"
proof (induction cs arbitrary: nps)
  case Nil
  then show ?case by simp
next
  case (Cons c cs)
  then show ?case
    by (auto split: sum.splits if_splits)
qed

lemma get_next_paths_sound:
  assumes "get_next_paths p g = Inr nps" and "np \<in> set nps"
  shows "\<exists>c w. np = p @ [c] \<and> getitem g (last p) c = Inr w \<and> \<not> feq w NInf \<and>
            (if length p = shape1 g then c = hd p else c \<notin> set p \<and> c < shape1 g)"
proof (cases "length p = shape1 g")
  case True
  with assms show ?thesis
    by (auto simp: get_next_paths_def get_next_paths_final_step_def split: sum.splits if_splits)
next
  case False
  with assms have "standard_step_loop p g [0..<shape1 g] = Inr nps"
    by (simp add: get_next_paths_def get_next_paths_standard_step_def)
  from standard_step_loop_sound [OF this assms(2)] False show ?thesis
    by auto
qed

lemma choices_mem: "choices xs ws r = Inr x \<Longrightarrow> x \<in> set xs"
  by (auto simp: choices_def split: if_splits)

lemma update_ant_advanced:
  assumes "update_ant a g phs alpha beta rnd k = Inr (True, a', k')"
  shows "advanced g a a'"
proof -
  from assms obtain nps probs sp where
    np: "get_next_paths (path a) g = Inr nps" and
    ch: "choices nps probs (rnd k) = Inr sp" and
    go: "go a (last sp) g = Inr a'"
    by (auto simp: update_ant_def get_next_paths_and_probabilities_def Let_def
        split: sum.splits if_splits prod.splits)
  from choices_mem [OF ch] have "sp \<in> set nps" .
  from get_next_paths_sound [OF np this] obtain c w where
    c: "sp = path a @ [c]" "getitem g (last (path a)) c = Inr w" "\<not> feq w NInf"
      "if length (path a) = shape1 g then c = hd (path a) else c \<notin> set (path a) \<and> c < shape1 g"
    by blast
  from go c(2) have "a' = \<lparr>path = path a @ [c], cost = fadd (cost a) w\<rparr>"
    by (simp add: go_def city_def c(1))
  with c show ?thesis
    unfolding advanced_def by (intro exI [of _ c] exI [of _ w]) simp
qed

lemma update_ants_advanced:
  "update_ants ants phs g alpha beta rnd k = Inr (ants', k') \<Longrightarrow> a' \<in> set ants' \<Longrightarrow>
     \<exists>a\<in>set ants. advanced g a a'"
proof (induction ants arbitrary: ants' k k')
  case Nil
  then show ?case by simp
next
  case (Cons x xs)
  from Cons.prems(1) obtain live x' k1 rest where
    u: "update_ant x g phs alpha beta rnd k = Inr (live, x', k1)" and
    r: "update_ants xs phs g alpha beta rnd k1 = Inr (rest, k')" and
    e: "ants' = (if live then x' # rest else rest)"
    by (auto split: sum.splits prod.splits)
  show ?case
  proof (cases "a' \<in> set rest")
    case True
    from Cons.IH [OF r True] show ?thesis by auto
  next
    case False
    with e Cons.prems(2) have "live" "a' = x'" by (auto split: if_splits)
    with u update_ant_advanced show ?thesis by auto
  qed
qed

lemma advanced_tour_inv:
  assumes "shape1 g = N" and "t < N" and "tour_inv N t a" and "advanced g a a'"
  shows "tour_inv N (Suc t) a'"
proof -
  from assms(4) obtain c where
    p: "path a' = path a @ [c]" and
    c: "if length (path a) = shape1 g then c = hd (path a) else c \<notin> set (path a) \<and> c < shape1 g"
    by (auto simp: advanced_def)
  from assms(3) have len: "length (path a) = Suc t" and sub: "set (path a) \<subseteq> {0..<N}"
    and dis: "distinct (take N (path a))"
    by (auto simp: tour_inv_def)
  from len have ne: "path a \<noteq> []" by auto
  show ?thesis
  proof (cases "Suc t = N")
    case True
    with c len assms(1) have "c = hd (path a)" by simp
    moreover from ne sub have "hd (path a) < N" using hd_in_set by fastforce
    ultimately show ?thesis
      using p len sub dis ne True by (auto simp: tour_inv_def)
  next
    case False
    with assms(2) have lt: "Suc t < N" by simp
    with c len assms(1) have "c \<notin> set (path a)" "c < N" by auto
    with p len sub dis lt show ?thesis
      by (auto simp: tour_inv_def)
  qed
qed

lemma turns_tour_inv:
  "turns n ants phs g q rho alpha beta rnd k = Inr (ants', phs', k') \<Longrightarrow>
   shape1 g = N \<Longrightarrow> t + n \<le> N \<Longrightarrow> \<forall>a\<in>set ants. tour_inv N t a \<Longrightarrow>
   \<forall>a\<in>set ants'. tour_inv N (t + n) a"
proof (induction n arbitrary: ants phs k t)
  case 0
  then show ?case by simp
next
  case (Suc n)
  from Suc.prems(1) obtain ants1 phs1 k1 where
    t1: "turn ants phs g q rho alpha beta rnd k = Inr (ants1, phs1, k1)" and
    ts: "turns n ants1 phs1 g q rho alpha beta rnd k1 = Inr (ants', phs', k')"
    by (auto split: sum.splits)
  from t1 obtain ua: "update_ants ants phs g alpha beta rnd k = Inr (ants1, k1)"
    by (auto simp: turn_def split: sum.splits)
  have "\<forall>a\<in>set ants1. tour_inv N (Suc t) a"
  proof
    fix a' assume "a' \<in> set ants1"
    from update_ants_advanced [OF ua this] obtain a where "a \<in> set ants" "advanced g a a'"
      by blast
    with Suc.prems show "tour_inv N (Suc t) a'"
      using advanced_tour_inv [of g N t a a'] by auto
  qed
  from Suc.IH [OF ts Suc.prems(2) _ this] Suc.prems(3) show ?case by simp
qed

lemma init_ants_tour_inv: "a \<in> set (init_ants N n) \<Longrightarrow> tour_inv N 0 a"
  by (auto simp: init_ants_def new_ant_def tour_inv_def)

lemma tour_inv_final:
  assumes "tour_inv N N a"
  shows "length (path a) = N + 1 \<and> hd (path a) = last (path a) \<and>
         distinct (take N (path a)) \<and> set (take N (path a)) = {0..<N}"
proof -
  from assms have len: "length (path a) = Suc N" and sub: "set (path a) \<subseteq> {0..<N}"
    and dis: "distinct (take N (path a))" and cl: "last (path a) = hd (path a)"
    by (auto simp: tour_inv_def)
  have s: "set (take N (path a)) \<subseteq> {0..<N}"
    using sub set_take_subset by fast
  have "card (set (take N (path a))) = N"
    using dis len by (simp add: distinct_card)
  with s have "set (take N (path a)) = {0..<N}"
    by (simp add: card_subset_eq)
  with len dis cl show ?thesis by simp
qed

lemma distinct_count_list_one: "distinct xs \<Longrightarrow> x \<in> set xs \<Longrightarrow> count_list xs x = 1"
  by (induction xs) auto

text \<open>
  C1.  On a square cost matrix, every ant that is still in the population after the loop
  of \<open>cities_count\<close> turns has a path of \<open>cities_count + 1\<close> cities whose first and last
  cities are equal, and every city \<open>0 .. cities_count - 1\<close> occurs exactly once among the
  first \<open>cities_count\<close> positions.  (It holds for every number of cities and whatever the
  diagonal is.)
\<close>

theorem surviving_ant_closed_tour:
  assumes "shape0 g = shape1 g"
    and "turns (shape0 g) (init_ants (shape0 g) n_ants) (init_pheromones g) g q rho alpha beta rnd 0
           = Inr (ants, phs, k)"
    and "a \<in> set ants"
  shows "length (path a) = shape0 g + 1 \<and> hd (path a) = last (path a) \<and>
         (\<forall>c<shape0 g. count_list (take (shape0 g) (path a)) c = 1)"
proof -
  have "\<forall>a\<in>set ants. tour_inv (shape0 g) (0 + shape0 g) a"
    by (rule turns_tour_inv [OF assms(2)]) (simp_all add: assms(1) init_ants_tour_inv)
  with assms(3) have "tour_inv (shape0 g) (shape0 g) a" by simp
  from tour_inv_final [OF this] show ?thesis
    by (auto simp: distinct_count_list_one)
qed

theorem surviving_ant_closed_tour_witness:
  "shape0 g3a = shape1 g3a \<and>
   turns (shape0 g3a) (init_ants (shape0 g3a) 2) (init_pheromones g3a) g3a 1 (1 / 2) 1 1
      (draws_from [1, 0, 1, 0, 1, 0]) 0 = Inr (ants3a, phs3a, 18) \<and>
   \<lparr>path = [0, 2, 1, 0], cost = Fin 15\<rparr> \<in> set ants3a \<and>
   length [0, 2, 1, 0 :: nat] = shape0 g3a + 1 \<and>
   hd [0, 2, 1, 0 :: nat] = last [0, 2, 1, 0] \<and>
   count_list (take (shape0 g3a) [0, 2, 1, 0 :: nat]) 0 = 1 \<and>
   count_list (take (shape0 g3a) [0, 2, 1, 0 :: nat]) 1 = 1 \<and>
   count_list (take (shape0 g3a) [0, 2, 1, 0 :: nat]) 2 = 1"
proof -
  have sq: "shape0 g3a = shape1 g3a"
    by (simp add: g3a_def shape0_def shape1_def)
  have mem: "\<lparr>path = [0, 2, 1, 0], cost = Fin 15\<rparr> \<in> set ants3a"
    by (simp add: ants3a_def)
  have n: "(0 :: nat) < shape0 g3a" "(1 :: nat) < shape0 g3a" "(2 :: nat) < shape0 g3a"
    by (simp_all add: g3a_def shape0_def)
  from surviving_ant_closed_tour [OF sq run_g3a mem] n sq run_g3a mem show ?thesis
    by simp
qed

subsection \<open>The best tour\<close>












lemma fle_Fin [simp]: "fle (Fin a) (Fin b) = (a \<le> b)"
  by (auto simp: fle_def)


lemma insort_ant_not_Nil [simp]: "insort_ant a bs \<noteq> []"
  by (cases bs) auto


lemma sorted_ants_Nil [simp]: "sorted_ants [] = []"
  by (simp add: sorted_ants_def)

lemma sorted_ants_Nil_iff [simp]: "sorted_ants xs = [] \<longleftrightarrow> xs = []"
  by (cases xs) (simp_all add: sorted_ants_def)








subsection \<open>Failures of the search\<close>

lemma turns_no_ants:
  "turns n [] phs g q rho alpha beta rnd k = Inr ([], ((\<lambda>m. evaporate m rho) ^^ n) phs, k)"
proof (induction n arbitrary: phs)
  case 0
  then show ?case by simp
next
  case (Suc n)
  then show ?case
    using funpow_swap1 [of "\<lambda>m. evaporate m rho" n phs]
    by (simp add: turn_def update_pheromones_def)
qed

text \<open>
  C4, as the program has it.  When the turns complete and no ant of the final population
  started from the requested city, \<open>ant_search\<close> returns no tour: \<open>best_ants[0]\<close> on the
  empty list raises IndexError, the only failure the program has for this case.
\<close>

theorem no_start_ant_index_error:
  assumes "turns (shape0 g) (init_ants (shape0 g) n_ants) (init_pheromones g) g q rho alpha beta rnd 0
             = Inr (ants, phs, k)"
    and "\<forall>a\<in>set ants. start a \<noteq> s"
  shows "ant_search g s n_ants q rho alpha beta rnd = Inl IndexError"
proof -
  from assms(2) have "filter (\<lambda>a. start a = s) ants = []"
    by (simp add: filter_empty_conv)
  with assms(1) show ?thesis
    by (simp add: ant_search_def find_best_ant_def Let_def)
qed

theorem no_start_ant_index_error_witness:
  "turns (shape0 g2d) (init_ants (shape0 g2d) 1) (init_pheromones g2d) g2d 100 (99 / 100) 1 5
      (draws_from []) 0 = Inr ([], [[NInf, NInf], [Fin 99, NInf]], 1) \<and>
   ant_search g2d 0 1 100 (99 / 100) 1 5 (draws_from []) = Inl IndexError"
proof -
  have t: "turns (shape0 g2d) (init_ants (shape0 g2d) 1) (init_pheromones g2d) g2d 100 (99 / 100) 1 5
      (draws_from []) 0 = Inr ([], [[NInf, NInf], [Fin 99, NInf]], 1)"
    by (simp add: ev)
  have ns: "\<forall>a\<in>set []. start a \<noteq> 0"
    by simp
  from no_start_ant_index_error [OF t ns] t show ?thesis
    by simp
qed

text \<open>
  The claim C4 itself fails: on \<open>g3d\<close> the ant from city 0 moves to city 2 and dies there,
  the turns complete with the ants from cities 1 and 2, and the search for start 0 ends
  with the uncaught IndexError of the list access.
\<close>

theorem infeasible_start_counterexample:
  "turns (shape0 g3d) (init_ants (shape0 g3d) 1) (init_pheromones g3d) g3d 100 (99 / 100) 0 1
      (draws_from [1]) 0 = Inr (ants3d, phs3d, 7) \<and>
   map start ants3d = [1, 2] \<and>
   ant_search g3d 0 1 100 (99 / 100) 0 1 (draws_from [1]) = Inl IndexError"
  by (simp add: ev ants3d_def phs3d_def)

text \<open>
  C5, as the program has it.  Nothing is checked before the turns.  With \<open>n_ants \<le> 0\<close>
  the population is empty from the start, every turn only evaporates the pheromones, and
  the search ends with the IndexError of \<open>best_ants[0]\<close> after the last turn.
\<close>

theorem no_ants_index_error:
  assumes "n_ants \<le> 0"
  shows "init_ants (shape0 g) n_ants = [] \<and>
         turns (shape0 g) (init_ants (shape0 g) n_ants) (init_pheromones g) g q rho alpha beta rnd 0
           = Inr ([], ((\<lambda>m. evaporate m rho) ^^ shape0 g) (init_pheromones g), 0) \<and>
         ant_search g s n_ants q rho alpha beta rnd = Inl IndexError"
proof -
  from assms have e: "init_ants (shape0 g) n_ants = []"
    by (simp add: init_ants_def)
  then show ?thesis
    by (simp add: turns_no_ants ant_search_def find_best_ant_def Let_def)
qed

theorem no_ants_index_error_witness:
  "(0 :: int) \<le> 0 \<and> init_ants (shape0 g2) 0 = [] \<and>
   ant_search g2 0 0 100 (99 / 100) 1 5 (draws_from []) = Inl IndexError"
  using no_ants_index_error [of 0 g2 100 "99 / 100" 1 5 "draws_from []" 0]
  by simp

text \<open>
  The claim C5 itself fails: with \<open>rho = 2\<close>, outside the range of an evaporation factor,
  the search on \<open>g2\<close> runs its turns and returns a tour.
\<close>

theorem no_validation_counterexample:
  "ant_search g2 0 1 100 2 1 5 (draws_from []) = Inr ([0, 1, 0], Fin 2)"
  by (simp add: ev)

subsection \<open>The pheromone update of a turn\<close>

lemma setitem_nth:
  "a < length m \<Longrightarrow> b < length (m ! a) \<Longrightarrow>
     setitem m a b v ! i ! j = (if i = a \<and> j = b then v else m ! i ! j)"
  by (auto simp: setitem_def nth_list_update)

lemma length_setitem [simp]: "length (setitem m a b v) = length m"
  by (simp add: setitem_def)

lemma length_setitem_row [simp]: "length (setitem m a b v ! i) = length (m ! i)"
  by (cases "a < length m") (auto simp: setitem_def nth_list_update list_update_beyond)

lemma evaporate_nth:
  "i < length phs \<Longrightarrow> j < length (phs ! i) \<Longrightarrow> evaporate phs rho ! i ! j = fmul (phs ! i ! j) (Fin rho)"
  by (simp add: evaporate_def)

lemma length_evaporate [simp]: "length (evaporate phs rho) = length phs"
  by (simp add: evaporate_def)

lemma length_evaporate_row [simp]:
  "i < length phs \<Longrightarrow> length (evaporate phs rho ! i) = length (phs ! i)"
  by (simp add: evaporate_def)

lemma deposit_loop_entry:
  "deposit_loop ants phs q = Inr phs' \<Longrightarrow> i < length phs \<Longrightarrow> j < length (phs ! i) \<Longrightarrow>
     length phs' = length phs \<and> length (phs' ! i) = length (phs ! i) \<and>
     phs' ! i ! j = foldl fadd (phs ! i ! j) (deposits q ants i j)"
proof (induction ants arbitrary: phs)
  case Nil
  then show ?case by (simp add: deposits_def)
next
  case (Cons a ants)
  from Cons.prems(1) obtain pc nc old where
    l2: "last2 (path a) = Inr (pc, nc)" and
    gi: "getitem phs pc nc = Inr old" and
    dl: "deposit_loop ants (setitem phs pc nc (fadd old (fdiv (Fin q) (cost a)))) q = Inr phs'"
    by (auto simp: Let_def split: sum.splits prod.splits)
  from gi have rng: "pc < length phs" "nc < length (phs ! pc)" and old: "old = phs ! pc ! nc"
    by (simp_all add: getitem_Inr)
  let ?m = "setitem phs pc nc (fadd old (fdiv (Fin q) (cost a)))"
  from Cons.prems have "i < length ?m" "j < length (?m ! i)" by simp_all
  from Cons.IH [OF dl this] have
    "length phs' = length phs \<and> length (phs' ! i) = length (phs ! i) \<and>
     phs' ! i ! j = foldl fadd (?m ! i ! j) (deposits q ants i j)"
    by simp
  with l2 rng old show ?case
    by (auto simp: setitem_nth deposits_def)
qed

text \<open>
  C8.  When a turn succeeds, the population after it consists of the ants that moved in
  this turn, and every entry \<open>(i, j)\<close> of the new pheromone matrix is the old entry
  multiplied once by \<open>rho\<close>, to which the amounts \<open>q / cost\<close> of the ants whose two most
  recent cities are \<open>i, j\<close> are then added one after the other, each with the cost the ant
  has after its move.
\<close>

theorem turn_pheromone_update:
  assumes "turn ants phs g q rho alpha beta rnd k = Inr (ants', phs', k')"
    and "i < length phs" and "j < length (phs ! i)"
  shows "update_ants ants phs g alpha beta rnd k = Inr (ants', k') \<and>
         (\<forall>a'\<in>set ants'. \<exists>a\<in>set ants. advanced g a a') \<and>
         phs' ! i ! j = foldl fadd (fmul (phs ! i ! j) (Fin rho)) (deposits q ants' i j)"
proof -
  from assms(1) have ua: "update_ants ants phs g alpha beta rnd k = Inr (ants', k')"
    and up: "deposit_loop ants' (evaporate phs rho) q = Inr phs'"
    by (auto simp: turn_def update_pheromones_def split: sum.splits)
  from assms(2,3) have "i < length (evaporate phs rho)" "j < length (evaporate phs rho ! i)"
    by simp_all
  from deposit_loop_entry [OF up this] assms(2,3)
  have "phs' ! i ! j = foldl fadd (fmul (phs ! i ! j) (Fin rho)) (deposits q ants' i j)"
    by (simp add: evaporate_nth)
  with ua update_ants_advanced [OF ua] show ?thesis by blast
qed

theorem turn_pheromone_update_witness:
  "turn (init_ants 2 2) [[NInf, Fin 10], [Fin 0, NInf]] g2 100 (1 / 2) 1 5 (draws_from []) 0 =
     Inr ([\<lparr>path = [0, 1], cost = Fin 1\<rparr>, \<lparr>path = [0, 1], cost = Fin 1\<rparr>,
          \<lparr>path = [1, 0], cost = Fin 1\<rparr>, \<lparr>path = [1, 0], cost = Fin 1\<rparr>],
         [[NInf, Fin 205], [Fin 200, NInf]], 4) \<and>
   (0 :: nat) < length [[NInf, Fin 10], [Fin 0, NInf]] \<and>
   (1 :: nat) < length ([[NInf, Fin 10], [Fin 0, NInf]] ! 0) \<and>
   [[NInf, Fin 205], [Fin 200, NInf]] ! 0 ! 1 =
     foldl fadd (fmul ([[NInf, Fin 10], [Fin 0, NInf]] ! 0 ! 1) (Fin (1 / 2)))
       (deposits 100 [\<lparr>path = [0, 1], cost = Fin 1\<rparr>, \<lparr>path = [0, 1], cost = Fin 1\<rparr>,
          \<lparr>path = [1, 0], cost = Fin 1\<rparr>, \<lparr>path = [1, 0], cost = Fin 1\<rparr>] 0 1) \<and>
   foldl fadd (fmul (Fin 10) (Fin (1 / 2)))
       (deposits 100 [\<lparr>path = [0, 1], cost = Fin 1\<rparr>, \<lparr>path = [0, 1], cost = Fin 1\<rparr>,
          \<lparr>path = [1, 0], cost = Fin 1\<rparr>, \<lparr>path = [1, 0], cost = Fin 1\<rparr>] 0 1) =
     fadd (fadd (Fin 5) (Fin 100)) (Fin 100)"
proof -
  have t: "turn (init_ants 2 2) [[NInf, Fin 10], [Fin 0, NInf]] g2 100 (1 / 2) 1 5 (draws_from []) 0 =
     Inr ([\<lparr>path = [0, 1], cost = Fin 1\<rparr>, \<lparr>path = [0, 1], cost = Fin 1\<rparr>,
          \<lparr>path = [1, 0], cost = Fin 1\<rparr>, \<lparr>path = [1, 0], cost = Fin 1\<rparr>],
         [[NInf, Fin 205], [Fin 200, NInf]], 4)"
    by (simp add: ev)
  have i: "(0 :: nat) < length [[NInf, Fin 10], [Fin 0, NInf]]"
    and j: "(1 :: nat) < length ([[NInf, Fin 10], [Fin 0, NInf]] ! 0)"
    by simp_all
  from turn_pheromone_update [OF t i j] t show ?thesis
    by (simp add: deposits_def last2_def)
qed

subsection \<open>Sentinel entries\<close>

lemma advanced_just_moved:
  assumes "path a \<noteq> []" and "advanced g a a'"
  shows "path a' \<noteq> [] \<and> just_moved g a'"
  using assms by (auto simp: advanced_def just_moved_def last2_snoc)

lemma turns_joint_invariant:
  assumes ant_step: "\<And>a a'. A a \<Longrightarrow> advanced g a a' \<Longrightarrow> A a' \<and> B a'"
    and phs_step: "\<And>ants phs phs'. P phs \<Longrightarrow> \<forall>a\<in>set ants. B a \<Longrightarrow>
        update_pheromones ants phs q rho = Inr phs' \<Longrightarrow> P phs'"
  shows "turns n ants phs g q rho alpha beta rnd k = Inr (ants', phs', k') \<Longrightarrow>
     \<forall>a\<in>set ants. A a \<Longrightarrow> P phs \<Longrightarrow> P phs' \<and> (\<forall>a\<in>set ants'. A a)"
proof (induction n arbitrary: ants phs k)
  case 0
  then show ?case by simp
next
  case (Suc n)
  from Suc.prems(1) obtain ants1 phs1 k1 where
    t1: "turn ants phs g q rho alpha beta rnd k = Inr (ants1, phs1, k1)" and
    ts: "turns n ants1 phs1 g q rho alpha beta rnd k1 = Inr (ants', phs', k')"
    by (auto split: sum.splits)
  from t1 have ua: "update_ants ants phs g alpha beta rnd k = Inr (ants1, k1)"
    and up: "update_pheromones ants1 phs q rho = Inr phs1"
    by (auto simp: turn_def split: sum.splits)
  have ab: "\<forall>a\<in>set ants1. A a \<and> B a"
  proof
    fix a' assume "a' \<in> set ants1"
    from update_ants_advanced [OF ua this] obtain a where "a \<in> set ants" "advanced g a a'"
      by blast
    with Suc.prems(2) ant_step show "A a' \<and> B a'" by blast
  qed
  then have "P phs1" using phs_step [OF Suc.prems(3) _ up] by blast
  with Suc.IH [OF ts] ab show ?case by blast
qed



lemma init_pheromones_nth:
  "i < length g \<Longrightarrow> j < length (g ! i) \<Longrightarrow>
     init_pheromones g ! i ! j = (if flt NInf (g ! i ! j) then Fin 0 else g ! i ! j)"
  by (simp add: init_pheromones_def)


lemma same_shape_init: "same_shape (init_pheromones g) g"
  by (simp add: same_shape_def init_pheromones_def)

lemma init_ants_path: "a \<in> set (init_ants N n) \<Longrightarrow> path a \<noteq> []"
  by (auto simp: init_ants_def new_ant_def)



subsection \<open>Evaporation\<close>

lemma evaporate_one: "evaporate phs 1 = phs"
proof -
  have "\<And>x. fmul x (Fin 1) = x"
    subgoal for x by (cases x) simp_all
    done
  then show ?thesis by (simp add: evaporate_def)
qed

lemma nonneg_or_pinf_fmul: "0 < rho \<Longrightarrow> nonneg_or_pinf x \<Longrightarrow> nonneg_or_pinf (fmul x (Fin rho))"
  by (cases x) (simp_all add: nonneg_or_pinf_def)

lemma nonneg_or_pinf_deposit:
  assumes "0 < q" and "0 \<le> c" and "nonneg_or_pinf x"
  shows "nonneg_or_pinf (fadd x (fdiv (Fin q) (Fin c)))"
  using assms by (cases x) (auto simp: nonneg_or_pinf_def)

lemma evaporate_trail_inv:
  assumes "0 < rho" and "trail_inv g phs"
  shows "trail_inv g (evaporate phs rho)"
  using assms
  by (auto simp: trail_inv_def same_shape_def evaporate_nth nonneg_or_pinf_fmul split: if_splits)

lemma deposit_loop_trail_inv:
  "deposit_loop ants phs q = Inr phs' \<Longrightarrow> 0 < q \<Longrightarrow> trail_inv g phs \<Longrightarrow>
     \<forall>a\<in>set ants. just_moved g a \<and> nonneg_cost a \<Longrightarrow> trail_inv g phs'"
proof (induction ants arbitrary: phs)
  case Nil
  then show ?case by simp
next
  case (Cons a ants)
  from Cons.prems(1) obtain pc nc old where
    l2: "last2 (path a) = Inr (pc, nc)" and
    gi: "getitem phs pc nc = Inr old" and
    dl: "deposit_loop ants (setitem phs pc nc (fadd old (fdiv (Fin q) (cost a)))) q = Inr phs'"
    by (auto simp: Let_def split: sum.splits prod.splits)
  from gi have rng: "pc < length phs" "nc < length (phs ! pc)" and old: "old = phs ! pc ! nc"
    by (simp_all add: getitem_Inr)
  from Cons.prems(4) l2 obtain w where "getitem g pc nc = Inr w" "\<not> feq w NInf"
    by (auto simp: just_moved_def)
  then have ne: "g ! pc ! nc \<noteq> NInf" and grng: "pc < length g" "nc < length (g ! pc)"
    by (auto simp: getitem_Inr)
  from Cons.prems(4) obtain c where c: "0 \<le> c" "cost a = Fin c"
    by (auto simp: nonneg_cost_def)
  from Cons.prems(3) ne grng old have "nonneg_or_pinf old"
    by (auto simp: trail_inv_def split: if_splits)
  from nonneg_or_pinf_deposit [OF Cons.prems(2) c(1) this] c(2)
  have new: "nonneg_or_pinf (fadd old (fdiv (Fin q) (cost a)))" by simp
  have "trail_inv g (setitem phs pc nc (fadd old (fdiv (Fin q) (cost a))))"
    using Cons.prems(3) rng ne new
    by (auto simp: trail_inv_def same_shape_def setitem_nth)
  from Cons.IH [OF dl Cons.prems(2) this] Cons.prems(4) show ?case by simp
qed

lemma nonneg_matrix_entry:
  "nonneg_matrix g \<Longrightarrow> getitem g i j = Inr w \<Longrightarrow> \<not> feq w NInf \<Longrightarrow> \<exists>v\<ge>0. w = Fin v"
  by (auto simp: nonneg_matrix_def getitem_Inr dest!: bspec [where x = "g ! i"] bspec [where x = "g ! i ! j"])

lemma advanced_nonneg_cost:
  assumes "nonneg_matrix g" and "nonneg_cost a" and "advanced g a a'"
  shows "nonneg_cost a'"
proof -
  from assms(3) obtain c w where
    co: "cost a' = fadd (cost a) w" and
    w: "getitem g (last (path a)) c = Inr w" "\<not> feq w NInf"
    by (auto simp: advanced_def)
  from nonneg_matrix_entry [OF assms(1) w] obtain v where "0 \<le> v" "w = Fin v" by blast
  with assms(2) co show ?thesis by (auto simp: nonneg_cost_def)
qed

lemma init_trail_inv: "nonneg_matrix g \<Longrightarrow> trail_inv g (init_pheromones g)"
proof -
  assume nn: "nonneg_matrix g"
  have "\<And>i j. i < length g \<Longrightarrow> j < length (g ! i) \<Longrightarrow>
      g ! i ! j = NInf \<or> (\<exists>v\<ge>0. g ! i ! j = Fin v)"
    using nn unfolding nonneg_matrix_def by (meson nth_mem)
  then show ?thesis
    by (fastforce simp: trail_inv_def same_shape_init init_pheromones_nth nonneg_or_pinf_def)
qed

lemma fle_evaporated:
  assumes "0 < rho" and "rho < 1" and "x = NInf \<or> nonneg_or_pinf x"
  shows "fle (fmul x (Fin rho)) x"
proof (cases x)
  case (Fin r)
  with assms have "0 \<le> r" by (simp add: nonneg_or_pinf_def)
  with assms(2) have "r * rho \<le> r"
    by (simp add: mult_left_le)
  with Fin show ?thesis by simp
qed (use assms in \<open>simp_all add: fle_def nonneg_or_pinf_def\<close>)

text \<open>
  C9, as the program has it.  Evaporation with \<open>rho = 1\<close> changes nothing.  For
  \<open>0 < rho < 1\<close>, an entry after evaporation is at most the entry before for every
  pheromone matrix reached by a run with \<open>q > 0\<close>, a positive evaporation factor and a
  cost matrix of sentinels and reals that are not negative.
\<close>

theorem evaporation_not_increasing:
  assumes "0 < rho" and "rho < 1" and "0 < rho'" and "0 < q" and "nonneg_matrix g"
    and "turns n (init_ants (shape0 g) n_ants) (init_pheromones g) g q rho' alpha beta rnd 0
           = Inr (ants, phs, k)"
    and "i < length phs" and "j < length (phs ! i)"
  shows "evaporate m 1 = m \<and> fle (evaporate phs rho ! i ! j) (phs ! i ! j)"
proof -
  have "trail_inv g phs \<and> (\<forall>a\<in>set ants. path a \<noteq> [] \<and> nonneg_cost a)"
  proof (rule turns_joint_invariant [OF _ _ assms(6),
        where B = "\<lambda>a. just_moved g a \<and> nonneg_cost a"])
    show "\<And>a a'. path a \<noteq> [] \<and> nonneg_cost a \<Longrightarrow> advanced g a a' \<Longrightarrow>
        (path a' \<noteq> [] \<and> nonneg_cost a') \<and> just_moved g a' \<and> nonneg_cost a'"
      using advanced_just_moved advanced_nonneg_cost [OF assms(5)] by blast
    show "\<And>ants phs phs'. trail_inv g phs \<Longrightarrow> \<forall>a\<in>set ants. just_moved g a \<and> nonneg_cost a \<Longrightarrow>
        update_pheromones ants phs q rho' = Inr phs' \<Longrightarrow> trail_inv g phs'"
      unfolding update_pheromones_def
      by (rule deposit_loop_trail_inv [OF _ assms(4) evaporate_trail_inv [OF assms(3)]])
    show "\<forall>a\<in>set (init_ants (shape0 g) n_ants). path a \<noteq> [] \<and> nonneg_cost a"
      by (auto simp: init_ants_def new_ant_def nonneg_cost_def)
    show "trail_inv g (init_pheromones g)"
      by (rule init_trail_inv [OF assms(5)])
  qed
  then have ti: "trail_inv g phs" ..
  from ti assms(7,8) have "phs ! i ! j = NInf \<or> nonneg_or_pinf (phs ! i ! j)"
    by (auto simp: trail_inv_def same_shape_def split: if_splits)
  from fle_evaporated [OF assms(1,2) this] assms(7,8) show ?thesis
    by (simp add: evaporate_nth evaporate_one)
qed

lemma turn_g2:
  "turns 1 (init_ants (shape0 g2) 1) (init_pheromones g2) g2 100 (99 / 100) 1 5 (draws_from []) 0 =
     Inr ([\<lparr>path = [0, 1], cost = Fin 1\<rparr>, \<lparr>path = [1, 0], cost = Fin 1\<rparr>],
          [[NInf, Fin 100], [Fin 100, NInf]], 2)"
  by (simp add: ev)

theorem evaporation_not_increasing_witness:
  "(0 :: real) < 1 / 2 \<and> (1 / 2 :: real) < 1 \<and> (0 :: real) < 99 / 100 \<and> (0 :: real) < 100 \<and>
   nonneg_matrix g2 \<and>
   turns 1 (init_ants (shape0 g2) 1) (init_pheromones g2) g2 100 (99 / 100) 1 5 (draws_from []) 0 =
     Inr ([\<lparr>path = [0, 1], cost = Fin 1\<rparr>, \<lparr>path = [1, 0], cost = Fin 1\<rparr>],
          [[NInf, Fin 100], [Fin 100, NInf]], 2) \<and>
   (0 :: nat) < length [[NInf, Fin 100], [Fin 100, NInf]] \<and>
   (1 :: nat) < length ([[NInf, Fin 100], [Fin 100, NInf]] ! 0) \<and>
   evaporate [[NInf, Fin 100], [Fin 100, NInf]] 1 = [[NInf, Fin 100], [Fin 100, NInf]] \<and>
   fle (evaporate [[NInf, Fin 100], [Fin 100, NInf]] (1 / 2) ! 0 ! 1)
       ([[NInf, Fin 100], [Fin 100, NInf]] ! 0 ! 1)"
proof -
  have h: "(0 :: real) < 1 / 2" "(1 / 2 :: real) < 1" "(0 :: real) < 99 / 100" "(0 :: real) < 100"
    by simp_all
  have nn: "nonneg_matrix g2"
    by (simp add: nonneg_matrix_def g2_def)
  have i: "(0 :: nat) < length [[NInf, Fin 100], [Fin 100, NInf]]"
    and j: "(1 :: nat) < length ([[NInf, Fin 100], [Fin 100, NInf]] ! 0)"
    by simp_all
  from evaporation_not_increasing [OF h nn turn_g2 i j] h nn turn_g2 i j show ?thesis
    by simp
qed

text \<open>
  The claim C9 itself fails for a run with a negative \<open>q\<close>: after one turn on \<open>g2\<close> the
  entries of the two edges are \<open>-100\<close>, and evaporation with \<open>rho = 1/2\<close> raises them to
  \<open>-50\<close>.
\<close>

theorem evaporation_counterexample:
  "turns 1 (init_ants (shape0 g2) 1) (init_pheromones g2) g2 (- 100) (1 / 2) 1 5 (draws_from []) 0 =
     Inr ([\<lparr>path = [0, 1], cost = Fin 1\<rparr>, \<lparr>path = [1, 0], cost = Fin 1\<rparr>],
          [[NInf, Fin (- 100)], [Fin (- 100), NInf]], 2) \<and>
   evaporate [[NInf, Fin (- 100)], [Fin (- 100), NInf]] (1 / 2) ! 0 ! 1 = Fin (- 50) \<and>
   \<not> fle (evaporate [[NInf, Fin (- 100)], [Fin (- 100), NInf]] (1 / 2) ! 0 ! 1)
         ([[NInf, Fin (- 100)], [Fin (- 100), NInf]] ! 0 ! 1)"
  by (simp add: ev)

subsection \<open>Deposits of ants of cost zero\<close>

lemma deposit_loop_no_raise:
  "\<forall>a\<in>set ants. \<exists>i j. last2 (path a) = Inr (i, j) \<and> i < length phs \<and> j < length (phs ! i) \<Longrightarrow>
     \<exists>phs'. deposit_loop ants phs q = Inr phs'"
proof (induction ants arbitrary: phs)
  case Nil
  then show ?case by simp
next
  case (Cons a ants)
  from Cons.prems obtain i j where
    ij: "last2 (path a) = Inr (i, j)" "i < length phs" "j < length (phs ! i)"
    by auto
  let ?m = "setitem phs i j (fadd (phs ! i ! j) (fdiv (Fin q) (cost a)))"
  from Cons.prems
  have "\<forall>a\<in>set ants. \<exists>i j. last2 (path a) = Inr (i, j) \<and> i < length ?m \<and> j < length (?m ! i)"
    by simp
  from Cons.IH [OF this] ij show ?case
    by (simp add: getitem_def)
qed

text \<open>
  C6, as the program has it.  The deposit step raises nothing as long as the two most
  recent cities of every ant index the matrix, whatever the costs are.  For an ant of
  cost exactly 0 the amount \<open>q / 0\<close> is \<open>+inf\<close> for \<open>q > 0\<close>, \<open>-inf\<close> for \<open>q < 0\<close> and NaN for
  \<open>q = 0\<close>, and it is added to the entry of the edge.
\<close>

theorem zero_cost_deposit:
  assumes "\<forall>a\<in>set ants. \<exists>i j. last2 (path a) = Inr (i, j) \<and> i < length phs \<and> j < length (phs ! i)"
    and "a \<in> set ants" and "cost a = Fin 0" and "last2 (path a) = Inr (i, j)"
  shows "(\<exists>phs'. update_pheromones ants phs q rho = Inr phs') \<and>
         update_pheromones [a] phs q rho =
           Inr (setitem (evaporate phs rho) i j
                 (fadd (fmul (phs ! i ! j) (Fin rho))
                       (if 0 < q then PInf else if q < 0 then NInf else NaN)))"
proof -
  have
    "\<forall>a\<in>set ants. \<exists>i j. last2 (path a) = Inr (i, j) \<and> i < length (evaporate phs rho) \<and>
        j < length (evaporate phs rho ! i)"
  proof
    fix b assume "b \<in> set ants"
    with assms(1) obtain i j where "last2 (path b) = Inr (i, j)" "i < length phs" "j < length (phs ! i)"
      by blast
    then show "\<exists>i j. last2 (path b) = Inr (i, j) \<and> i < length (evaporate phs rho) \<and>
        j < length (evaporate phs rho ! i)"
      by auto
  qed
  from deposit_loop_no_raise [OF this]
  have 1: "\<exists>phs'. update_pheromones ants phs q rho = Inr phs'"
    by (simp add: update_pheromones_def)
  from assms have "i < length phs" "j < length (phs ! i)" by auto
  with assms(3,4) 1 show ?thesis
    by (simp add: update_pheromones_def getitem_def evaporate_nth)
qed

theorem zero_cost_deposit_witness:
  "last2 (path \<lparr>path = [0, 1], cost = Fin 0\<rparr>) = Inr (0, 1) \<and>
   0 < length (init_pheromones gz) \<and> 1 < length (init_pheromones gz ! 0) \<and>
   cost \<lparr>path = [0, 1], cost = Fin 0\<rparr> = Fin 0 \<and>
   update_pheromones [\<lparr>path = [0, 1], cost = Fin 0\<rparr>] (init_pheromones gz) 100 (99 / 100) =
     Inr [[NInf, PInf], [Fin 0, NInf]]"
proof -
  have l: "last2 (path \<lparr>path = [0, 1], cost = Fin 0\<rparr>) = Inr (0, 1)"
    by (simp add: last2_def)
  have b: "0 < length (init_pheromones gz)" "1 < length (init_pheromones gz ! 0)"
    by (simp_all add: gz_def init_pheromones_def)
  from l b have r: "\<forall>a\<in>set [\<lparr>path = [0, 1], cost = Fin 0\<rparr>].
      \<exists>i j. last2 (path a) = Inr (i, j) \<and> i < length (init_pheromones gz) \<and>
            j < length (init_pheromones gz ! i)"
    by simp
  have m: "\<lparr>path = [0, 1], cost = Fin 0\<rparr> \<in> set [\<lparr>path = [0, 1], cost = Fin 0\<rparr>]"
    and c: "cost \<lparr>path = [0, 1], cost = Fin 0\<rparr> = Fin 0"
    by simp_all
  from zero_cost_deposit [OF r m c l, of 100 "99 / 100"] b c l show ?thesis
    by (simp add: gz_def init_pheromones_def evaporate_def setitem_def)
qed

text \<open>
  The claim C6 itself fails: in the first turn on \<open>gz\<close> both ants have cost 0 when their
  deposit is due; the turn raises nothing and leaves \<open>+inf\<close> in the two entries.
\<close>

theorem zero_cost_counterexample:
  "turn (init_ants (shape0 gz) 1) (init_pheromones gz) gz 100 (99 / 100) 1 5 (draws_from []) 0 =
     Inr ([\<lparr>path = [0, 1], cost = Fin 0\<rparr>, \<lparr>path = [1, 0], cost = Fin 0\<rparr>],
          [[NInf, PInf], [PInf, NInf]], 2)"
  by (simp add: ev)

end
